theory Spec2Isabelle
  imports Main
begin

section \<open>The two code blocks of the patch document\<close>

text \<open>
  The repository's only source is \<^verbatim>\<open>ios/Patches/debug_string_convertible_patch.h\<close>, a
  document holding two C++ fragments: the original code of \<^verbatim>\<open>DebugStringConvertible.cpp\<close>
  and the patched code. Both are kept here line by line, exactly as written.
\<close>

definition original :: "string list" where
  "original =
    [''namespace std {'',
     ''template<>'',
     ''struct char_traits<unsigned char> {'',
     ''  using char_type = unsigned char;'',
     ''  using int_type = int;'',
     ''  using off_type = streamoff;'',
     ''  using pos_type = streampos;'',
     ''  using state_type = mbstate_t;'',
     '''',
     ''  // ... implementation details ...'',
     ''};'',
     ''} // namespace std'']"

definition patched :: "string list" where
  "patched =
    [''// char_traits<unsigned char> is now defined in the prefix header'',
     ''#ifndef _RCT_FOLLY_PREFIX_PCH'',
     ''namespace std {'',
     ''template<>'',
     ''struct char_traits<unsigned char> {'',
     ''  using char_type = unsigned char;'',
     ''  using int_type = int;'',
     ''  using off_type = streamoff;'',
     ''  using pos_type = streampos;'',
     ''  using state_type = mbstate_t;'',
     '''',
     ''  // ... implementation details ...'',
     ''};'',
     ''} // namespace std'',
     ''#endif // _RCT_FOLLY_PREFIX_PCH'']"

definition guard :: string where
  "guard = ''_RCT_FOLLY_PREFIX_PCH''"

section \<open>Lines of a translation unit\<close>

text \<open>
  The fragments are C++ source, so what they do is what the preprocessor makes of them.
  A line is read the way translation phases 3 and 4 read it: a \<^verbatim>\<open>//\<close> comment runs to
  the end of the line and counts as white space, a line whose first token is \<^verbatim>\<open>#\<close> is a
  directive, every other non-empty line is text. Block comments, string literals and
  function-like macros do not occur in the fragments and are not read specially.
\<close>

datatype line =
    Ifndef string
  | Ifdef string
  | Define string string
  | Undef string
  | If_expr string
  | Elif_expr string
  | Else
  | Endif
  | Other string
  | Code string
  | Blank

fun strip_comment :: "string \<Rightarrow> string" where
  "strip_comment [] = []"
| "strip_comment [c] = [c]"
| "strip_comment (c # d # cs) =
     (if c = CHR ''/'' \<and> d = CHR ''/'' then [] else c # strip_comment (d # cs))"

definition is_space :: "char \<Rightarrow> bool" where
  "is_space c = (c = CHR '' '' \<or> c = CHR 0x09)"

definition trim :: "string \<Rightarrow> string" where
  "trim s = rev (dropWhile is_space (rev (dropWhile is_space s)))"

definition first_word :: "string \<Rightarrow> string \<times> string" where
  "first_word s =
     (let t = dropWhile is_space s
      in (takeWhile (\<lambda>c. \<not> is_space c) t,
          dropWhile is_space (dropWhile (\<lambda>c. \<not> is_space c) t)))"

definition directive :: "string \<Rightarrow> line" where
  "directive s =
     (let (name, rest) = first_word s; (arg, more) = first_word rest
      in if name = [] then Blank
         else if name = ''ifndef'' \<and> arg \<noteq> [] \<and> more = [] then Ifndef arg
         else if name = ''ifdef'' \<and> arg \<noteq> [] \<and> more = [] then Ifdef arg
         else if name = ''define'' \<and> arg \<noteq> [] then Define arg more
         else if name = ''undef'' \<and> arg \<noteq> [] \<and> more = [] then Undef arg
         else if name = ''if'' then If_expr rest
         else if name = ''elif'' then Elif_expr rest
         else if name = ''else'' \<and> arg = [] then Else
         else if name = ''endif'' \<and> arg = [] then Endif
         else Other s)"

definition classify :: "string \<Rightarrow> line" where
  "classify raw =
     (let s = trim (strip_comment raw)
      in case s of
           [] \<Rightarrow> Blank
         | c # cs \<Rightarrow> if c = CHR ''#'' then directive cs else Code s)"

section \<open>Conditional inclusion\<close>

text \<open>
  The preprocessor keeps the macros defined so far, the stack of open conditionals
  (innermost first; for each, whether its current group is selected and whether its
  \<^verbatim>\<open>#else\<close> has been seen) and the text lines passed on to the compiler. A line takes
  effect only when every open conditional selects its group. \<^verbatim>\<open>#ifndef\<close> and
  \<^verbatim>\<open>#ifdef\<close> look at nothing but whether the name has a definition. The expression of
  an \<^verbatim>\<open>#if\<close> or \<^verbatim>\<open>#elif\<close> is not evaluated: where its value would matter the
  directive is refused, and inside a skipped group it only takes part in the nesting.
  \<^verbatim>\<open>step\<close> passes a selected text line on as written; macro replacement inside the
  line is added by \<^verbatim>\<open>run_replacing\<close> further down.
\<close>

type_synonym macros = "string \<rightharpoonup> string"

datatype pp_error =
    Endif_without_if
  | Else_without_if
  | Else_after_else
  | Elif_without_if
  | Elif_after_else
  | Unterminated_conditional
  | Unsupported_directive string
  | Replacement_too_deep

record pp_state =
  defined :: macros
  conds :: "(bool \<times> bool) list"
  emitted :: "string list"

definition active :: "pp_state \<Rightarrow> bool" where
  "active st = list_all fst (conds st)"

fun step :: "pp_state \<Rightarrow> line \<Rightarrow> pp_error + pp_state" where
  "step st (Ifndef n) = Inr (st\<lparr>conds := (defined st n = None, False) # conds st\<rparr>)"
| "step st (Ifdef n) = Inr (st\<lparr>conds := (defined st n \<noteq> None, False) # conds st\<rparr>)"
| "step st (If_expr e) =
     (if active st then Inl (Unsupported_directive (''if '' @ e))
      else Inr (st\<lparr>conds := (False, False) # conds st\<rparr>))"
| "step st (Elif_expr e) =
     (case conds st of
        [] \<Rightarrow> Inl Elif_without_if
      | (sel, seen) # cs \<Rightarrow>
          if seen then Inl Elif_after_else
          else if list_all fst cs then Inl (Unsupported_directive (''elif '' @ e))
          else Inr st)"
| "step st Else =
     (case conds st of
        [] \<Rightarrow> Inl Else_without_if
      | (sel, seen) # cs \<Rightarrow>
          if seen then Inl Else_after_else else Inr (st\<lparr>conds := (\<not> sel, True) # cs\<rparr>))"
| "step st Endif =
     (case conds st of
        [] \<Rightarrow> Inl Endif_without_if
      | c # cs \<Rightarrow> Inr (st\<lparr>conds := cs\<rparr>))"
| "step st (Define n v) =
     Inr (if active st then st\<lparr>defined := (defined st)(n \<mapsto> v)\<rparr> else st)"
| "step st (Undef n) =
     Inr (if active st then st\<lparr>defined := (defined st)(n := None)\<rparr> else st)"
| "step st (Other s) = (if active st then Inl (Unsupported_directive s) else Inr st)"
| "step st (Code s) = Inr (if active st then st\<lparr>emitted := emitted st @ [s]\<rparr> else st)"
| "step st Blank = Inr st"

fun run :: "pp_state \<Rightarrow> line list \<Rightarrow> pp_error + pp_state" where
  "run st [] = Inr st"
| "run st (l # ls) = (case step st l of Inl e \<Rightarrow> Inl e | Inr st' \<Rightarrow> run st' ls)"

text \<open>
  A source file is preprocessed from the macros defined where it is included; every
  conditional it opens has to be closed by its end. The result is the macros defined
  afterwards and the text the file contributed.
\<close>

definition preprocess :: "macros \<Rightarrow> line list \<Rightarrow> pp_error + macros \<times> string list" where
  "preprocess env ls =
     (case run \<lparr>defined = env, conds = [], emitted = []\<rparr> ls of
        Inl e \<Rightarrow> Inl e
      | Inr st \<Rightarrow>
          if conds st = [] then Inr (defined st, emitted st) else Inl Unterminated_conditional)"

definition include_file :: "macros \<Rightarrow> string list \<Rightarrow> pp_error + macros \<times> string list" where
  "include_file env src = preprocess env (map classify src)"

text \<open>A translation unit is a sequence of files, each seeing the macros left by the ones before.\<close>

fun translation_unit :: "macros \<Rightarrow> string list list \<Rightarrow> pp_error + macros \<times> string list" where
  "translation_unit env [] = Inr (env, [])"
| "translation_unit env (f # fs) =
     (case include_file env f of
        Inl e \<Rightarrow> Inl e
      | Inr (env', out) \<Rightarrow>
          (case translation_unit env' fs of
             Inl e \<Rightarrow> Inl e
           | Inr (env'', out') \<Rightarrow> Inr (env'', out @ out')))"

section \<open>Macro replacement\<close>

text \<open>
  In a selected text line every identifier that names an object-like macro is replaced by
  the macro's replacement text, which is scanned again with that macro's name hidden. A
  line is cut into tokens first: a run of letters, digits and underscores (a number also
  takes its decimal point and the sign of its exponent), or one other character. The
  nesting of replacements is bounded by \<open>d\<close>; the real preprocessor has no bound, and a
  result reached within the bound is the real one. String and character literals are not
  read specially.
\<close>

definition is_digit :: "char \<Rightarrow> bool" where
  "is_digit c = (c \<in> set ''0123456789'')"

definition ident_start :: "char \<Rightarrow> bool" where
  "ident_start c = (c \<in> set ''ABCDEFGHIJKLMNOPQRSTUVWXYZabcdefghijklmnopqrstuvwxyz_'')"

definition ident_char :: "char \<Rightarrow> bool" where
  "ident_char c = (ident_start c \<or> is_digit c)"

definition joins :: "string \<Rightarrow> char \<Rightarrow> bool" where
  "joins acc c =
     (ident_char c
      \<or> (acc \<noteq> [] \<and> is_digit (hd acc)
          \<and> (c = CHR ''.'' \<or> ((c = CHR ''+'' \<or> c = CHR ''-'') \<and> last acc \<in> set ''eEpP''))))"

definition flush :: "string \<Rightarrow> string list" where
  "flush acc = (if acc = [] then [] else [acc])"

fun split_tokens :: "string \<Rightarrow> string \<Rightarrow> string list" where
  "split_tokens acc [] = flush acc"
| "split_tokens acc (c # cs) =
     (if joins acc c then split_tokens (acc @ [c]) cs
      else flush acc @ [c] # split_tokens [] cs)"

definition tokens :: "string \<Rightarrow> string list" where
  "tokens s = split_tokens [] s"

definition is_identifier :: "string \<Rightarrow> bool" where
  "is_identifier t = (case t of [] \<Rightarrow> False | c # cs \<Rightarrow> ident_start c)"

fun replace_tokens :: "nat \<Rightarrow> macros \<Rightarrow> string list \<Rightarrow> string list \<Rightarrow> string list option" where
  "replace_tokens d env hidden [] = Some []"
| "replace_tokens d env hidden (t # ts) =
     (case (if is_identifier t \<and> t \<notin> set hidden then env t else None) of
        None \<Rightarrow> map_option ((#) t) (replace_tokens d env hidden ts)
      | Some r \<Rightarrow>
          (case d of
             0 \<Rightarrow> None
           | Suc d' \<Rightarrow>
               (case replace_tokens d' env (t # hidden) (tokens r) of
                  None \<Rightarrow> None
                | Some rs \<Rightarrow> map_option ((@) rs) (replace_tokens d env hidden ts))))"

definition replace_macros :: "nat \<Rightarrow> macros \<Rightarrow> string \<Rightarrow> string option" where
  "replace_macros d env s = map_option concat (replace_tokens d env [] (tokens s))"

fun replace_line :: "nat \<Rightarrow> pp_state \<Rightarrow> line \<Rightarrow> line option" where
  "replace_line d st (Code s) =
     (if active st then map_option Code (replace_macros d (defined st) s) else Some (Code s))"
| "replace_line d st l = Some l"

fun run_replacing :: "nat \<Rightarrow> pp_state \<Rightarrow> line list \<Rightarrow> pp_error + pp_state" where
  "run_replacing d st [] = Inr st"
| "run_replacing d st (l # ls) =
     (case replace_line d st l of
        None \<Rightarrow> Inl Replacement_too_deep
      | Some l' \<Rightarrow>
          (case step st l' of Inl e \<Rightarrow> Inl e | Inr st' \<Rightarrow> run_replacing d st' ls))"

text \<open>The preprocessed text of a file: the selected lines after macro replacement.\<close>

definition preprocessed :: "nat \<Rightarrow> macros \<Rightarrow> string list \<Rightarrow> pp_error + string list" where
  "preprocessed d env src =
     (case run_replacing d \<lparr>defined = env, conds = [], emitted = []\<rparr> (map classify src) of
        Inl e \<Rightarrow> Inl e
      | Inr st \<Rightarrow> if conds st = [] then Inr (emitted st) else Inl Unterminated_conditional)"

text \<open>The identifiers that occur in some lines of text.\<close>

definition identifiers :: "string list \<Rightarrow> string list" where
  "identifiers ls = filter is_identifier (concat (map tokens ls))"

section \<open>Observing a translation unit\<close>

text \<open>
  In the text of the two fragments the definition of the explicit specialization is
  recognised by its class head, written as the fragments write it; the number of such
  lines is the number of definitions of \<^verbatim>\<open>std::char_traits<unsigned char>\<close> the
  fragments contribute. Text from elsewhere may spell a definition differently and is
  never counted this way: what precedes the patched code in a translation unit enters
  as a number of definitions.
\<close>

definition specialization_head :: string where
  "specialization_head = ''struct char_traits<unsigned char> {''"

definition specializations :: "string list \<Rightarrow> nat" where
  "specializations out = count_list out specialization_head"

definition emission :: "macros \<Rightarrow> string list \<Rightarrow> pp_error + string list" where
  "emission env src =
     (case include_file env src of Inl e \<Rightarrow> Inl e | Inr (env', out) \<Rightarrow> Inr out)"

definition definitions_in :: "macros \<Rightarrow> string list \<Rightarrow> pp_error + nat" where
  "definitions_in env src =
     (case emission env src of Inl e \<Rightarrow> Inl e | Inr out \<Rightarrow> Inr (specializations out))"

text \<open>The text lines of the original code: its declarations, comments and blank lines gone.\<close>

definition declarations :: "string list" where
  "declarations =
    [''namespace std {'',
     ''template<>'',
     ''struct char_traits<unsigned char> {'',
     ''using char_type = unsigned char;'',
     ''using int_type = int;'',
     ''using off_type = streamoff;'',
     ''using pos_type = streampos;'',
     ''using state_type = mbstate_t;'',
     ''};'',
     ''}'']"

text \<open>Lines that are no directive, and the text a line passes on when it is selected.\<close>

fun plain :: "line \<Rightarrow> bool" where
  "plain (Code s) = True"
| "plain Blank = True"
| "plain l = False"

fun text_of :: "line \<Rightarrow> string list" where
  "text_of (Code s) = [s]"
| "text_of l = []"

text \<open>The original code as the preprocessor reads it.\<close>

definition block :: "line list" where
  "block = map classify original"


text \<open>
  The standard include guard around a header, with guard macro \<open>h\<close>, and a translation unit
  that includes one header \<open>n\<close> times in a row.
\<close>

definition with_include_guard :: "string \<Rightarrow> line list \<Rightarrow> line list" where
  "with_include_guard h body = Ifndef h # Define h [] # body @ [Endif]"

definition included_times :: "nat \<Rightarrow> line list \<Rightarrow> line list" where
  "included_times n hdr = concat (replicate n hdr)"








text \<open>Example inputs: no macro defined, and a prefix header that defines both.\<close>

definition no_macros :: macros where
  "no_macros = Map.empty"

definition example_prefix :: "string list" where
  "example_prefix = ''#define _RCT_FOLLY_PREFIX_PCH'' # original"

section \<open>Reading the two fragments\<close>

lemma classify_original:
  "map classify original =
    [Code ''namespace std {'',
     Code ''template<>'',
     Code ''struct char_traits<unsigned char> {'',
     Code ''using char_type = unsigned char;'',
     Code ''using int_type = int;'',
     Code ''using off_type = streamoff;'',
     Code ''using pos_type = streampos;'',
     Code ''using state_type = mbstate_t;'',
     Blank,
     Blank,
     Code ''};'',
     Code ''}'']"
  by code_simp

lemma classify_patched:
  "map classify patched = Blank # Ifndef guard # block @ [Endif]"
  by code_simp

lemma patched_text:
  "patched =
     ''// char_traits<unsigned char> is now defined in the prefix header''
     # ''#ifndef _RCT_FOLLY_PREFIX_PCH''
     # original @ [''#endif // _RCT_FOLLY_PREFIX_PCH'']"
  by (simp add: patched_def original_def)

lemma block_plain: "list_all plain block"
  unfolding block_def classify_original by simp

lemma block_text: "concat (map text_of block) = declarations"
  unfolding block_def classify_original by (simp add: declarations_def)

lemma specializations_declarations: "specializations declarations = 1"
  by (simp add: specializations_def declarations_def specialization_head_def)

lemma specializations_Nil: "specializations [] = 0"
  by (simp add: specializations_def)


section \<open>Running the preprocessor\<close>

lemma run_append:
  "run st (xs @ ys) = (case run st xs of Inl e \<Rightarrow> Inl e | Inr st' \<Rightarrow> run st' ys)"
  by (induction xs arbitrary: st) (simp_all split: sum.splits)

lemma step_plain:
  "plain l \<Longrightarrow>
   step st l = Inr (if active st then st\<lparr>emitted := emitted st @ text_of l\<rparr> else st)"
  by (cases l) simp_all

lemma run_plain:
  "list_all plain ls \<Longrightarrow>
   run st ls =
     Inr (if active st then st\<lparr>emitted := emitted st @ concat (map text_of ls)\<rparr> else st)"
proof (induction ls arbitrary: st)
  case Nil
  show ?case by simp
next
  case (Cons l ls)
  from Cons.prems have l: "plain l" and ls: "list_all plain ls" by simp_all
  show ?case
    by (simp add: step_plain [OF l] Cons.IH [OF ls] active_def)
qed

lemma run_patched:
  "run st (map classify patched) =
     Inr (if active st \<and> defined st guard = None
          then st\<lparr>emitted := emitted st @ declarations\<rparr> else st)"
  by (simp add: classify_patched run_append run_plain [OF block_plain] block_text
      active_def)

lemma include_original: "include_file env original = Inr (env, declarations)"
  by (simp add: include_file_def preprocess_def run_plain [OF block_plain] block_text
      active_def flip: block_def)

lemma include_patched:
  "include_file env patched = Inr (env, if env guard = None then declarations else [])"
  by (simp add: include_file_def preprocess_def run_patched active_def)


lemma emission_patched:
  "emission env patched = Inr (if env guard = None then declarations else [])"
  by (simp add: emission_def include_patched)

lemma run_guarded:
  "h \<noteq> guard \<Longrightarrow>
   run st (with_include_guard h (map classify patched)) =
     Inr (if active st \<and> defined st h = None
          then st\<lparr>defined := (defined st)(h \<mapsto> []),
                  emitted := emitted st @ (if defined st guard = None then declarations else [])\<rparr>
          else st)"
  by (cases "defined st h"; cases "defined st guard"; cases "active st")
    (simp_all add: with_include_guard_def run_append run_patched active_def)

lemma run_guarded_skip:
  "h \<noteq> guard \<Longrightarrow> defined st h \<noteq> None \<Longrightarrow>
   run st (with_include_guard h (map classify patched)) = Inr st"
  by (cases "defined st h") (simp_all add: run_guarded)

lemma run_guarded_again:
  "h \<noteq> guard \<Longrightarrow> defined st h \<noteq> None \<Longrightarrow>
   run st (included_times n (with_include_guard h (map classify patched))) = Inr st"
  by (induction n) (simp_all add: included_times_def run_append run_guarded_skip)

lemma preprocess_guarded:
  "h \<noteq> guard \<Longrightarrow>
   preprocess env (with_include_guard h (map classify patched)) =
     Inr (if env h = None then env(h \<mapsto> []) else env,
          if env h = None \<and> env guard = None then declarations else [])"
  by (simp add: preprocess_def run_guarded active_def)

lemma preprocess_guarded_repeated:
  assumes "h \<noteq> guard"
  shows "preprocess env (included_times (Suc n) (with_include_guard h (map classify patched))) =
    preprocess env (with_include_guard h (map classify patched))"
proof -
  let ?W = "with_include_guard h (map classify patched)"
  let ?st = "\<lparr>defined = env, conds = [], emitted = []\<rparr>"
  obtain st1 where st1: "run ?st ?W = Inr st1" and d: "defined st1 h \<noteq> None"
    using assms by (simp add: run_guarded active_def)
  have "run ?st (included_times (Suc n) ?W) = run st1 (included_times n ?W)"
    by (simp add: included_times_def run_append st1)
  also have "\<dots> = Inr st1"
    using assms d by (rule run_guarded_again)
  finally show ?thesis
    by (simp add: preprocess_def st1)
qed

lemma unit_with_prefix:
  "include_file env prefix = Inr (env1, out1) \<Longrightarrow>
   translation_unit env [prefix, patched] =
     Inr (env1, out1 @ (if env1 guard = None then declarations else []))"
  by (simp add: include_patched)

lemma classify_example_prefix: "map classify example_prefix = Define guard [] # block"
  by code_simp

lemma include_example_prefix:
  "include_file no_macros example_prefix = Inr (no_macros(guard \<mapsto> []), declarations)"
  by (simp add: include_file_def preprocess_def classify_example_prefix
      run_plain [OF block_plain] block_text active_def)

lemma no_macros_None: "no_macros n = None"
  by (simp add: no_macros_def)




section \<open>Replacing macros in the block\<close>

lemma split_tokens_concat: "concat (split_tokens acc s) = acc @ s"
  by (induction s arbitrary: acc) (simp_all add: flush_def)

lemma tokens_concat: "concat (tokens s) = s"
  by (simp add: tokens_def split_tokens_concat)

lemma replace_tokens_unchanged:
  "list_all (\<lambda>t. is_identifier t \<longrightarrow> env t = None) ts \<Longrightarrow>
   replace_tokens d env hidden ts = Some ts"
  by (induction ts) simp_all

lemma replace_macros_unchanged:
  assumes "list_all (\<lambda>n. env n = None) (identifiers ls)" and "s \<in> set ls"
  shows "replace_macros d env s = Some s"
proof -
  from assms have "list_all (\<lambda>t. is_identifier t \<longrightarrow> env t = None) (tokens s)"
    by (auto simp add: identifiers_def list_all_iff)
  then show ?thesis
    by (simp add: replace_macros_def replace_tokens_unchanged tokens_concat)
qed

lemma run_replacing_append:
  "run_replacing d st (xs @ ys) =
     (case run_replacing d st xs of Inl e \<Rightarrow> Inl e | Inr st' \<Rightarrow> run_replacing d st' ys)"
  by (induction xs arbitrary: st) (simp_all split: sum.splits option.splits)

lemma run_replacing_plain:
  "list_all plain ls \<Longrightarrow>
   active st \<longrightarrow> list_all (\<lambda>s. replace_macros d (defined st) s = Some s) (concat (map text_of ls)) \<Longrightarrow>
   run_replacing d st ls = run st ls"
proof (induction ls arbitrary: st)
  case Nil
  show ?case by simp
next
  case (Cons l ls)
  from Cons.prems have l: "plain l" and ls: "list_all plain ls" by simp_all
  from Cons.prems(2) l have same: "replace_line d st l = Some l"
    by (cases l) auto
  let ?st' = "if active st then st\<lparr>emitted := emitted st @ text_of l\<rparr> else st"
  have "active ?st' \<longrightarrow>
      list_all (\<lambda>s. replace_macros d (defined ?st') s = Some s) (concat (map text_of ls))"
    using Cons.prems(2) by (auto simp add: active_def)
  from Cons.IH [OF ls this] show ?case
    by (simp add: same step_plain [OF l])
qed

lemma run_replacing_patched:
  assumes "defined st guard = None \<longrightarrow>
    list_all (\<lambda>n. defined st n = None) (identifiers declarations)"
  shows "run_replacing d st (map classify patched) = run st (map classify patched)"
proof -
  let ?st1 = "st\<lparr>conds := (defined st guard = None, False) # conds st\<rparr>"
  have "active ?st1 \<longrightarrow>
      list_all (\<lambda>s. replace_macros d (defined ?st1) s = Some s) (concat (map text_of block))"
    using assms by (auto simp add: active_def block_text list_all_iff replace_macros_unchanged)
  from run_replacing_plain [OF block_plain this] show ?thesis
    by (simp add: classify_patched run_replacing_append run_append split: sum.splits)
qed

lemma preprocessed_patched:
  assumes "env guard = None \<longrightarrow> list_all (\<lambda>n. env n = None) (identifiers declarations)"
  shows "preprocessed d env patched = Inr (if env guard = None then declarations else [])"
proof -
  have "preprocessed d env patched = emission env patched"
    using assms
    by (simp add: preprocessed_def emission_def include_file_def preprocess_def
        run_replacing_patched split: sum.splits)
  then show ?thesis
    by (simp add: emission_patched)
qed

lemma identifiers_declarations:
  "identifiers declarations =
    [''namespace'', ''std'', ''template'', ''struct'', ''char_traits'', ''unsigned'', ''char'',
     ''using'', ''char_type'', ''unsigned'', ''char'', ''using'', ''int_type'', ''int'',
     ''using'', ''off_type'', ''streamoff'', ''using'', ''pos_type'', ''streampos'',
     ''using'', ''state_type'', ''mbstate_t'']"
  by code_simp

lemma preprocessed_unreplaced: "preprocessed 8 no_macros patched = Inr declarations"
  by (simp add: preprocessed_patched identifiers_declarations no_macros_None)

lemma preprocessed_replaced:
  "preprocessed 8 (no_macros(''int_type'' \<mapsto> ''long_type'')) patched =
    Inr [''namespace std {'',
         ''template<>'',
         ''struct char_traits<unsigned char> {'',
         ''using char_type = unsigned char;'',
         ''using long_type = int;'',
         ''using off_type = streamoff;'',
         ''using pos_type = streampos;'',
         ''using state_type = mbstate_t;'',
         ''};'',
         ''}'']"
  by code_simp

section \<open>The guarded block\<close>



text \<open>
  C2. In a translation unit that includes the patched code with \<^verbatim>\<open>_RCT_FOLLY_PREFIX_PCH\<close>
  defined, the patched code defines the specialization zero times, so it cannot be the
  source of a second definition.
\<close>

theorem patched_defines_nothing_when_defined:
  "env guard \<noteq> None \<Longrightarrow> definitions_in env patched = Inr 0"
  by (auto simp add: definitions_in_def emission_patched specializations_Nil)

theorem patched_defines_nothing_when_defined_witness:
  "(no_macros(guard \<mapsto> ''1'')) guard \<noteq> None
   \<and> definitions_in (no_macros(guard \<mapsto> ''1'')) patched = Inr 0"
  using patched_defines_nothing_when_defined [of "no_macros(guard \<mapsto> ''1'')"] by simp

text \<open>
  C3. Idempotence of inclusion. Let the patched code sit in a header with a standard include
  guard (a macro \<open>h\<close> other than \<^verbatim>\<open>_RCT_FOLLY_PREFIX_PCH\<close>). A translation unit that
  includes the header two or more times gets exactly what one inclusion gives, whatever the
  state of \<^verbatim>\<open>_RCT_FOLLY_PREFIX_PCH\<close>: preprocessing succeeds and the specialization is
  defined at most once, so there is no redefinition.
\<close>

theorem guarded_inclusion_idempotent:
  "h \<noteq> guard \<Longrightarrow> 2 \<le> n \<Longrightarrow>
   preprocess env (included_times n (with_include_guard h (map classify patched)))
     = preprocess env (with_include_guard h (map classify patched))
   \<and> preprocess env (with_include_guard h (map classify patched))
     = Inr (if env h = None then env(h \<mapsto> []) else env,
            if env h = None \<and> env guard = None then declarations else [])
   \<and> specializations (if env h = None \<and> env guard = None then declarations else []) \<le> 1"
proof -
  assume h: "h \<noteq> guard" and n: "2 \<le> n"
  from n obtain m where m: "n = Suc m" by (cases n) simp_all
  have
    "preprocess env (included_times n (with_include_guard h (map classify patched)))
      = preprocess env (with_include_guard h (map classify patched))"
    unfolding m using h by (rule preprocess_guarded_repeated)
  with h show ?thesis
    by (simp add: preprocess_guarded specializations_declarations specializations_Nil)
qed

theorem guarded_inclusion_idempotent_witness:
  "''PATCH_H'' \<noteq> guard \<and> (2::nat) \<le> 3
   \<and> preprocess no_macros (included_times 3 (with_include_guard ''PATCH_H'' (map classify patched)))
     = Inr (no_macros(''PATCH_H'' \<mapsto> []), declarations)"
  using guarded_inclusion_idempotent [of "''PATCH_H''" 3 no_macros]
  by (simp add: guard_def no_macros_def)

text \<open>
  C4. With \<^verbatim>\<open>_RCT_FOLLY_PREFIX_PCH\<close> undefined, preprocessing the patched code gives
  exactly what preprocessing the original code gives. The lines between \<^verbatim>\<open>#ifndef\<close> and
  \<^verbatim>\<open>#endif\<close> are the original code, unchanged: the patch puts the conditional (and the
  comment line announcing it) around the original text and changes nothing else.
\<close>

theorem patch_is_conditional_wrapper:
  "env guard = None \<Longrightarrow>
   include_file env patched = include_file env original
   \<and> patched =
       ''// char_traits<unsigned char> is now defined in the prefix header''
       # ''#ifndef _RCT_FOLLY_PREFIX_PCH''
       # original @ [''#endif // _RCT_FOLLY_PREFIX_PCH'']
   \<and> classify ''// char_traits<unsigned char> is now defined in the prefix header'' = Blank"
proof -
  assume "env guard = None"
  then have "include_file env patched = include_file env original"
    by (simp add: include_patched include_original)
  moreover have
    "classify ''// char_traits<unsigned char> is now defined in the prefix header'' = Blank"
    by code_simp
  ultimately show ?thesis
    using patched_text by simp
qed

theorem patch_is_conditional_wrapper_witness:
  "no_macros guard = None
   \<and> include_file no_macros patched = include_file no_macros original
   \<and> include_file no_macros original = Inr (no_macros, declarations)"
  using patch_is_conditional_wrapper [of no_macros]
  by (simp add: no_macros_def include_original)




text \<open>
  C6. In a translation unit where \<^verbatim>\<open>_RCT_FOLLY_PREFIX_PCH\<close> is defined when the patched
  code is reached, the patched code supplies nothing: the text of the unit is the text of
  the prefix header, so the unit holds a definition of the specialization only if the
  prefix header supplied it.
\<close>

theorem definition_comes_from_prefix_when_defined:
  "include_file env prefix = Inr (env1, out1) \<Longrightarrow> env1 guard \<noteq> None \<Longrightarrow>
   translation_unit env [prefix, patched] = Inr (env1, out1)
   \<and> emission env1 patched = Inr []"
  by (auto simp add: unit_with_prefix emission_patched simp del: translation_unit.simps)

theorem definition_comes_from_prefix_when_defined_witness:
  "include_file no_macros example_prefix = Inr (no_macros(guard \<mapsto> []), declarations)
   \<and> (no_macros(guard \<mapsto> [])) guard \<noteq> None
   \<and> translation_unit no_macros [example_prefix, patched]
     = Inr (no_macros(guard \<mapsto> []), declarations)
   \<and> emission (no_macros(guard \<mapsto> [])) patched = Inr []"
  using definition_comes_from_prefix_when_defined
    [of no_macros example_prefix "no_macros(guard \<mapsto> [])" declarations]
  by (simp add: include_example_prefix del: translation_unit.simps)

text \<open>
  C7 (as amended). The guard tests definedness only, never the value. Two macro
  environments in which \<^verbatim>\<open>_RCT_FOLLY_PREFIX_PCH\<close> is defined make the patched code give
  the same preprocessed text, the empty one, whatever value the symbol has and whatever
  else is defined. Two environments in which it is undefined give the same text, the
  declarations of the block, provided neither defines a macro named by an identifier of
  the block. The text is computed with macro replacement, at every bound on its nesting.
\<close>

theorem preprocessed_depends_on_definedness_and_block_macros:
  "(env1 guard = None) = (env2 guard = None) \<Longrightarrow>
   env1 guard = None \<longrightarrow>
     list_all (\<lambda>n. env1 n = None \<and> env2 n = None) (identifiers declarations) \<Longrightarrow>
   preprocessed d env1 patched = preprocessed d env2 patched
   \<and> preprocessed d env1 patched = Inr (if env1 guard = None then declarations else [])"
proof -
  assume same: "(env1 guard = None) = (env2 guard = None)"
    and free: "env1 guard = None \<longrightarrow>
      list_all (\<lambda>n. env1 n = None \<and> env2 n = None) (identifiers declarations)"
  from free have
    "env1 guard = None \<longrightarrow> list_all (\<lambda>n. env1 n = None) (identifiers declarations)"
    by (simp add: list_all_iff)
  then have one: "preprocessed d env1 patched = Inr (if env1 guard = None then declarations else [])"
    by (rule preprocessed_patched)
  from free same have
    "env2 guard = None \<longrightarrow> list_all (\<lambda>n. env2 n = None) (identifiers declarations)"
    by (simp add: list_all_iff)
  then have "preprocessed d env2 patched = Inr (if env2 guard = None then declarations else [])"
    by (rule preprocessed_patched)
  with one same show ?thesis by simp
qed

theorem preprocessed_depends_on_definedness_and_block_macros_witness:
  "(no_macros(guard \<mapsto> ''1'')) guard \<noteq> None \<and> (no_macros(guard \<mapsto> ''0'', ''int_type'' \<mapsto> ''long_type'')) guard \<noteq> None
   \<and> preprocessed 8 (no_macros(guard \<mapsto> ''1'')) patched = preprocessed 8 (no_macros(guard \<mapsto> ''0'', ''int_type'' \<mapsto> ''long_type'')) patched
   \<and> preprocessed 8 (no_macros(guard \<mapsto> ''1'')) patched = Inr []
   \<and> no_macros guard = None \<and> (no_macros(''NDEBUG'' \<mapsto> ''1'')) guard = None
   \<and> list_all (\<lambda>n. no_macros n = None \<and> (no_macros(''NDEBUG'' \<mapsto> ''1'')) n = None) (identifiers declarations)
   \<and> preprocessed 8 no_macros patched = preprocessed 8 (no_macros(''NDEBUG'' \<mapsto> ''1'')) patched
   \<and> preprocessed 8 no_macros patched = Inr declarations"
proof -
  have d1: "(no_macros(guard \<mapsto> ''1'')) guard \<noteq> None" and d2: "(no_macros(guard \<mapsto> ''0'', ''int_type'' \<mapsto> ''long_type'')) guard \<noteq> None"
    by (simp_all add: guard_def)
  have u1: "no_macros guard = None" and u2: "(no_macros(''NDEBUG'' \<mapsto> ''1'')) guard = None"
    by (simp_all add: guard_def no_macros_None)
  have free: "list_all (\<lambda>n. no_macros n = None \<and> (no_macros(''NDEBUG'' \<mapsto> ''1'')) n = None) (identifiers declarations)"
    by (simp add: identifiers_declarations no_macros_None)
  from d1 d2 have defd:
    "preprocessed 8 (no_macros(guard \<mapsto> ''1'')) patched = preprocessed 8 (no_macros(guard \<mapsto> ''0'', ''int_type'' \<mapsto> ''long_type'')) patched
     \<and> preprocessed 8 (no_macros(guard \<mapsto> ''1'')) patched = Inr (if (no_macros(guard \<mapsto> ''1'')) guard = None then declarations else [])"
    by (intro preprocessed_depends_on_definedness_and_block_macros) simp_all
  from defd have a: "preprocessed 8 (no_macros(guard \<mapsto> ''1'')) patched = preprocessed 8 (no_macros(guard \<mapsto> ''0'', ''int_type'' \<mapsto> ''long_type'')) patched"
    by (rule conjunct1)
  from defd [THEN conjunct2] d1 have b: "preprocessed 8 (no_macros(guard \<mapsto> ''1'')) patched = Inr []"
    by simp
  from u1 u2 free have undefd:
    "preprocessed 8 no_macros patched = preprocessed 8 (no_macros(''NDEBUG'' \<mapsto> ''1'')) patched
     \<and> preprocessed 8 no_macros patched = Inr (if no_macros guard = None then declarations else [])"
    by (intro preprocessed_depends_on_definedness_and_block_macros) simp_all
  from undefd have c: "preprocessed 8 no_macros patched = preprocessed 8 (no_macros(''NDEBUG'' \<mapsto> ''1'')) patched"
    by (rule conjunct1)
  from undefd [THEN conjunct2] u1 have d: "preprocessed 8 no_macros patched = Inr declarations"
    by simp
  from d1 d2 a b u1 u2 free c d show ?thesis
    by (intro conjI)
qed

text \<open>
  C7 as first stated lets the text depend on nothing but the definedness of the guard
  symbol. With the symbol undefined in both, an environment that defines \<^verbatim>\<open>int_type\<close> as
  a macro gives another text than the one that defines nothing.
\<close>

theorem macro_changes_preprocessed_text:
  "no_macros guard = None \<and> (no_macros(''int_type'' \<mapsto> ''long_type'')) guard = None
   \<and> preprocessed 8 no_macros patched = Inr declarations
   \<and> preprocessed 8 (no_macros(''int_type'' \<mapsto> ''long_type'')) patched =
       Inr [''namespace std {'',
            ''template<>'',
            ''struct char_traits<unsigned char> {'',
            ''using char_type = unsigned char;'',
            ''using long_type = int;'',
            ''using off_type = streamoff;'',
            ''using pos_type = streampos;'',
            ''using state_type = mbstate_t;'',
            ''};'',
            ''}'']
   \<and> preprocessed 8 no_macros patched \<noteq> preprocessed 8 (no_macros(''int_type'' \<mapsto> ''long_type'')) patched"
  by (simp add: preprocessed_unreplaced preprocessed_replaced declarations_def guard_def
      no_macros_None)

text \<open>
  C8. With \<^verbatim>\<open>_RCT_FOLLY_PREFIX_PCH\<close> defined the patched code contributes no text at all and
  leaves the macros as they were. The whole \<^verbatim>\<open>namespace std\<close> block, from its opening to
  its closing brace, lies between \<^verbatim>\<open>#ifndef\<close> and \<^verbatim>\<open>#endif\<close>; the one line outside is a
  comment.
\<close>

theorem patched_contributes_nothing_when_defined:
  "env guard \<noteq> None \<Longrightarrow>
   include_file env patched = Inr (env, [])
   \<and> map classify patched = Blank # Ifndef guard # block @ [Endif]
   \<and> list_all plain block
   \<and> hd block = Code ''namespace std {'' \<and> last block = Code ''}''"
proof -
  assume "env guard \<noteq> None"
  then have "include_file env patched = Inr (env, [])"
    by (auto simp add: include_patched)
  moreover have "hd block = Code ''namespace std {''" "last block = Code ''}''"
    unfolding block_def classify_original by simp_all
  ultimately show ?thesis
    using classify_patched block_plain by simp
qed

theorem patched_contributes_nothing_when_defined_witness:
  "(no_macros(guard \<mapsto> [])) guard \<noteq> None
   \<and> include_file (no_macros(guard \<mapsto> [])) patched = Inr (no_macros(guard \<mapsto> []), [])"
  using patched_contributes_nothing_when_defined [of "no_macros(guard \<mapsto> [])"] by simp



end
